theory Spec2Isabelle
  imports Complex_Main "HOL-Library.AList"
begin

section \<open>Data model\<close>

text \<open>
  The module \<^verbatim>\<open>GalTransl/SafeWrite.py\<close> works on files of one directory tree.
  A \<^verbatim>\<open>pathlib.Path\<close> is the pair of its parent directory and its final component;
  the bytes of a file are a \<open>string\<close> (a list of 8-bit characters).
\<close>

type_synonym bytes = string

record Path =
  parent :: string
  name :: string

text \<open>
  A regular file: its bytes and its modification time (\<^verbatim>\<open>st_mtime\<close>), in
  microseconds since the epoch, the clock that \<^verbatim>\<open>time.time()\<close> reads.
\<close>

record inode =
  content :: bytes
  st_mtime :: nat

text \<open>
  The file system is an association list from paths to files. Its order is the order in
  which a directory listing enumerates the entries.
\<close>

type_synonym filesystem = "(Path \<times> inode) list"

datatype exn = OSError | FileNotFoundError | KeyError | RuntimeError | AttributeError

subsection \<open>Values produced by \<^verbatim>\<open>orjson.loads\<close>\<close>

text \<open>
  The Python values a JSON document parses to. A \<^verbatim>\<open>dict\<close> is an association
  list read with \<open>map_of\<close>; a finite \<^verbatim>\<open>float\<close> is a rational number.
\<close>

datatype pyval =
    PNone
  | PBool bool
  | PInt int
  | PFloat rat
  | PStr string
  | PList "pyval list"
  | PDict "(string \<times> pyval) list"

section \<open>DataValidator\<close>

text \<open>
  \<^verbatim>\<open>required_fields = {"index", "name", "pre_jp", "post_jp", "pre_zh"}\<close>
\<close>

definition required_fields :: "string list" where
  "required_fields = [''index'', ''name'', ''pre_jp'', ''post_jp'', ''pre_zh'']"

text \<open>
  \<^verbatim>\<open>isinstance(value, (str, int))\<close>. In Python \<^verbatim>\<open>bool\<close> is a subclass of
  \<^verbatim>\<open>int\<close>, so \<^verbatim>\<open>True\<close> and \<^verbatim>\<open>False\<close> are instances of \<^verbatim>\<open>int\<close>.
\<close>

fun isinstance_str_int :: "pyval \<Rightarrow> bool" where
  "isinstance_str_int (PStr s) = True"
| "isinstance_str_int (PInt i) = True"
| "isinstance_str_int (PBool b) = True"
| "isinstance_str_int PNone = False"
| "isinstance_str_int (PFloat r) = False"
| "isinstance_str_int (PList xs) = False"
| "isinstance_str_int (PDict d) = False"

text \<open>
  Every \<^verbatim>\<open>return\<close> of \<^verbatim>\<open>validate_json_file\<close> and of
  \<^verbatim>\<open>_validate_cache_structure\<close> logs which check ended the validation. The
  verdict records that log line: one constructor for each \<^verbatim>\<open>return\<close>, with the
  index \<^verbatim>\<open>i\<close> of the item for the three checks inside the loop.
\<close>

datatype verdict =
    Passed
  | FileMissing
  | FileEmpty
  | ValidationException
  | JSONFormatError
  | NotAList
  | ItemNotDict nat
  | ItemMissingFields nat
  | ItemFieldType nat

text \<open>
  \<^verbatim>\<open>for field in required_fields: if not isinstance(item[field], (str, int)): return False\<close>.
  A missing key would raise \<^verbatim>\<open>KeyError\<close>, which the enclosing \<^verbatim>\<open>except\<close>
  turns into \<^verbatim>\<open>False\<close> as well.
\<close>

fun fields_typed :: "(string \<times> pyval) list \<Rightarrow> string list \<Rightarrow> bool" where
  "fields_typed d [] = True"
| "fields_typed d (field # rest) =
     (case map_of d field of
        None \<Rightarrow> False
      | Some v \<Rightarrow> if \<not> isinstance_str_int v then False else fields_typed d rest)"

text \<open>
  \<^verbatim>\<open>missing_fields = required_fields - set(item.keys())\<close>
\<close>

definition missing_fields :: "(string \<times> pyval) list \<Rightarrow> string list" where
  "missing_fields d = filter (\<lambda>k. k \<notin> set (map fst d)) required_fields"

text \<open>The loop \<^verbatim>\<open>for i, item in enumerate(data)\<close>, started at index \<open>i\<close>.\<close>

fun check_items :: "nat \<Rightarrow> pyval list \<Rightarrow> verdict" where
  "check_items i [] = Passed"
| "check_items i (item # rest) =
     (case item of
        PDict d \<Rightarrow>
          if missing_fields d \<noteq> [] then ItemMissingFields i
          else if \<not> fields_typed d required_fields then ItemFieldType i
          else check_items (Suc i) rest
      | _ \<Rightarrow> ItemNotDict i)"

definition cache_structure_verdict :: "pyval \<Rightarrow> verdict" where
  "cache_structure_verdict data =
     (case data of
        PList items \<Rightarrow> check_items 0 items
      | _ \<Rightarrow> NotAList)"

definition validate_cache_structure :: "pyval \<Rightarrow> bool" where
  "validate_cache_structure data = (cache_structure_verdict data = Passed)"

text \<open>
  Reading a file with \<^verbatim>\<open>aiofiles.open(path, 'rb')\<close>: the flag says whether the
  operating system lets the read succeed.
\<close>

definition read_file :: "bool \<Rightarrow> filesystem \<Rightarrow> Path \<Rightarrow> exn + bytes" where
  "read_file ok fs p =
     (case map_of fs p of
        None \<Rightarrow> Inl FileNotFoundError
      | Some f \<Rightarrow> if ok then Inr (content f) else Inl OSError)"

definition exists :: "filesystem \<Rightarrow> Path \<Rightarrow> bool" where
  "exists fs p = (map_of fs p \<noteq> None)"

text \<open>
  \<^verbatim>\<open>validate_json_file\<close>. The parser \<^verbatim>\<open>orjson.loads\<close> is a library
  function and a parameter here: \<open>None\<close> is \<^verbatim>\<open>JSONDecodeError\<close>.
\<close>

definition json_file_verdict ::
  "(bytes \<Rightarrow> pyval option) \<Rightarrow> bool \<Rightarrow> filesystem \<Rightarrow> Path \<Rightarrow> verdict" where
  "json_file_verdict loads read_ok fs file_path =
     (case map_of fs file_path of
        None \<Rightarrow> FileMissing
      | Some f \<Rightarrow>
          if length (content f) = 0 then FileEmpty
          else (case read_file read_ok fs file_path of
                  Inl e \<Rightarrow> ValidationException
                | Inr bs \<Rightarrow>
                    (case loads bs of
                       None \<Rightarrow> JSONFormatError
                     | Some data \<Rightarrow>
                         if \<not> validate_cache_structure data
                         then cache_structure_verdict data
                         else Passed)))"

definition validate_json_file ::
  "(bytes \<Rightarrow> pyval option) \<Rightarrow> bool \<Rightarrow> filesystem \<Rightarrow> Path \<Rightarrow> bool" where
  "validate_json_file loads read_ok fs file_path =
     (json_file_verdict loads read_ok fs file_path = Passed)"

section \<open>pathlib and file operations\<close>

text \<open>
  \<^verbatim>\<open>str.rfind\<close>: the index of the last occurrence, or \<open>-1\<close>.
\<close>

fun rfind :: "char \<Rightarrow> string \<Rightarrow> int" where
  "rfind c [] = - 1"
| "rfind c (x # xs) =
     (let r = rfind c xs in if 0 \<le> r then r + 1 else if x = c then 0 else - 1)"

text \<open>
  \<^verbatim>\<open>PurePath.suffix\<close> and \<^verbatim>\<open>PurePath.stem\<close>:
  \<^verbatim>\<open>i = name.rfind('.'); if 0 < i < len(name) - 1: return name[i:] else: return ''\<close>
  (and \<^verbatim>\<open>name[:i]\<close>, else \<^verbatim>\<open>name\<close>, for the stem).
\<close>

definition suffix :: "Path \<Rightarrow> string" where
  "suffix p =
     (let i = rfind CHR ''.'' (name p)
      in if 0 < i \<and> i < int (length (name p)) - 1 then drop (nat i) (name p) else [])"

definition stem :: "Path \<Rightarrow> string" where
  "stem p =
     (let i = rfind CHR ''.'' (name p)
      in if 0 < i \<and> i < int (length (name p)) - 1 then take (nat i) (name p) else name p)"

text \<open>The decimal digits of a natural number, as an f-string renders it.\<close>

fun str_nat :: "nat \<Rightarrow> string" where
  "str_nat n =
     (if n < 10 then [''0123456789'' ! n]
      else str_nat (n div 10) @ [''0123456789'' ! (n mod 10)])"

declare str_nat.simps [simp del]

text \<open>
  What the operating system does with \<^verbatim>\<open>async with aiofiles.open(path, 'wb') as f\<close>
  and \<^verbatim>\<open>await f.write(data)\<close>: it succeeds; or opening raises and no file is
  touched; or the write raises after the file was truncated and \<open>n\<close> bytes were
  stored; or closing the file raises after all bytes were stored.
\<close>

datatype write_outcome = Written | OpenFailed | WriteFailed nat | FlushFailed

definition write_file ::
  "write_outcome \<Rightarrow> nat \<Rightarrow> filesystem \<Rightarrow> Path \<Rightarrow> bytes \<Rightarrow> filesystem \<times> exn option" where
  "write_file outcome now fs p data =
     (case outcome of
        Written \<Rightarrow> (AList.update p \<lparr>content = data, st_mtime = now\<rparr> fs, None)
      | OpenFailed \<Rightarrow> (fs, Some OSError)
      | WriteFailed n \<Rightarrow>
          (AList.update p \<lparr>content = take n data, st_mtime = now\<rparr> fs, Some OSError)
      | FlushFailed \<Rightarrow> (AList.update p \<lparr>content = data, st_mtime = now\<rparr> fs, Some OSError))"

text \<open>
  \<^verbatim>\<open>Path.unlink()\<close>: raises when the file is missing or when the operating
  system refuses (the predicate \<open>ok\<close>); the file system is unchanged then.
\<close>

definition unlink :: "(Path \<Rightarrow> bool) \<Rightarrow> filesystem \<Rightarrow> Path \<Rightarrow> exn + filesystem" where
  "unlink ok fs p =
     (if map_of fs p = None then Inl FileNotFoundError
      else if \<not> ok p then Inl OSError
      else Inr (AList.delete p fs))"

text \<open>
  \<^verbatim>\<open>directory.glob(pattern)\<close>: the entries of the directory whose name matches
  the pattern, in listing order. The matching of a name against a pattern is pathlib's
  and is a parameter \<open>m\<close>.
\<close>

definition glob ::
  "(string \<Rightarrow> string \<Rightarrow> bool) \<Rightarrow> filesystem \<Rightarrow> string \<Rightarrow> string \<Rightarrow> Path list" where
  "glob m fs dir pattern =
     filter (\<lambda>p. parent p = dir \<and> m pattern (name p)) (map fst fs)"

text \<open>
  \<^verbatim>\<open>backup_files.sort(key=lambda x: x.stat().st_mtime, reverse=True)\<close>: a stable
  sort, newest first; \<^verbatim>\<open>stat\<close> raises for a missing file.
\<close>

definition mtime_of :: "filesystem \<Rightarrow> Path \<Rightarrow> nat" where
  "mtime_of fs p = (case map_of fs p of None \<Rightarrow> 0 | Some f \<Rightarrow> st_mtime f)"

definition sort_by_mtime_desc :: "filesystem \<Rightarrow> Path list \<Rightarrow> exn + Path list" where
  "sort_by_mtime_desc fs ps =
     (if list_ex (\<lambda>p. map_of fs p = None) ps then Inl FileNotFoundError
      else Inr (sort_key (\<lambda>p. - int (mtime_of fs p)) ps))"

text \<open>The slice \<^verbatim>\<open>xs[n:]\<close>; a negative \<open>n\<close> counts from the end.\<close>

definition slice_from :: "'a list \<Rightarrow> int \<Rightarrow> 'a list" where
  "slice_from xs n =
     (if 0 \<le> n then drop (nat n) xs else drop (nat (int (length xs) + n)) xs)"

section \<open>BackupManager\<close>

text \<open>
  The values of a configuration dict: booleans and integers. Where an integer is
  expected \<^verbatim>\<open>True\<close> counts as 1 and \<^verbatim>\<open>False\<close> as 0; where a condition is
  expected, an integer is true when it is not 0.
\<close>

datatype config_value = CBool bool | CInt int

fun int_value :: "config_value \<Rightarrow> int" where
  "int_value (CInt n) = n"
| "int_value (CBool b) = (if b then 1 else 0)"

fun truthy :: "config_value \<Rightarrow> bool" where
  "truthy (CBool b) = b"
| "truthy (CInt n) = (n \<noteq> 0)"

record BackupManager =
  retention_count :: int
  enable_backup :: bool

text \<open>
  \<^verbatim>\<open>self.config = backup_config or {}\<close>,
  \<^verbatim>\<open>self.retention_count = self.config.get('backup_retention_count', 3)\<close>,
  \<^verbatim>\<open>self.enable_backup = self.config.get('enable_backup', True)\<close>.
\<close>

definition BackupManager_init :: "(string \<times> config_value) list option \<Rightarrow> BackupManager" where
  "BackupManager_init backup_config =
     (let config = (case backup_config of None \<Rightarrow> [] | Some d \<Rightarrow> d)
      in \<lparr>retention_count =
            (case map_of config ''backup_retention_count'' of None \<Rightarrow> 3 | Some v \<Rightarrow> int_value v),
          enable_backup =
            (case map_of config ''enable_backup'' of None \<Rightarrow> True | Some v \<Rightarrow> truthy v)\<rparr>)"

text \<open>
  What the environment decides during the operations of a backup manager: the pattern
  matching of \<^verbatim>\<open>glob\<close>, the text of
  \<^verbatim>\<open>datetime.now().strftime("%Y%m%d_%H%M%S")\<close>, whether reading the source
  succeeds, how writing the destination ends and the modification time it gets, which
  files can be unlinked, and whether the validator can read the snapshot.
\<close>

record io_env =
  glob_match :: "string \<Rightarrow> string \<Rightarrow> bool"
  now_stamp :: string
  src_read_ok :: bool
  dst_write :: write_outcome
  dst_mtime :: nat
  unlink_ok :: "Path \<Rightarrow> bool"
  validate_read_ok :: bool

text \<open>
  \<^verbatim>\<open>backup_pattern = f"{file_path.stem}_*_backup{file_path.suffix}"\<close>, the same
  expression in \<^verbatim>\<open>restore_from_backup\<close> and \<^verbatim>\<open>_cleanup_old_backups\<close>.
\<close>

definition backup_pattern :: "Path \<Rightarrow> string" where
  "backup_pattern file_path = stem file_path @ ''_*_backup'' @ suffix file_path"

definition backup_files_of :: "io_env \<Rightarrow> filesystem \<Rightarrow> Path \<Rightarrow> Path list" where
  "backup_files_of env fs file_path =
     glob (glob_match env) fs (parent file_path) (backup_pattern file_path)"

text \<open>
  The loop \<^verbatim>\<open>for backup_file in files_to_delete: backup_file.unlink()\<close>. An
  exception leaves the loop; the result carries it.
\<close>

fun unlink_each :: "(Path \<Rightarrow> bool) \<Rightarrow> filesystem \<Rightarrow> Path list \<Rightarrow> filesystem \<times> exn option" where
  "unlink_each ok fs [] = (fs, None)"
| "unlink_each ok fs (p # ps) =
     (case unlink ok fs p of
        Inl e \<Rightarrow> (fs, Some e)
      | Inr fs' \<Rightarrow> unlink_each ok fs' ps)"

text \<open>
  \<^verbatim>\<open>_cleanup_old_backups\<close>. The function returns nothing; the second component
  is the exception that its \<^verbatim>\<open>except\<close> clause logged as a warning, if any.
\<close>

definition cleanup_old_backups ::
  "BackupManager \<Rightarrow> io_env \<Rightarrow> filesystem \<Rightarrow> Path \<Rightarrow> filesystem \<times> exn option" where
  "cleanup_old_backups bm env fs file_path =
     (let backup_files = backup_files_of env fs file_path
      in if int (length backup_files) \<le> retention_count bm then (fs, None)
         else (case sort_by_mtime_desc fs backup_files of
                 Inl e \<Rightarrow> (fs, Some e)
               | Inr sorted_files \<Rightarrow>
                   unlink_each (unlink_ok env) fs
                     (slice_from sorted_files (retention_count bm))))"

definition backup_path_of :: "io_env \<Rightarrow> Path \<Rightarrow> Path" where
  "backup_path_of env file_path =
     \<lparr>parent = parent file_path,
      name = stem file_path @ ''_'' @ now_stamp env @ ''_backup'' @ suffix file_path\<rparr>"

definition create_backup ::
  "BackupManager \<Rightarrow> io_env \<Rightarrow> filesystem \<Rightarrow> Path \<Rightarrow> filesystem \<times> Path option" where
  "create_backup bm env fs file_path =
     (if \<not> enable_backup bm then (fs, None)
      else if \<not> exists fs file_path then (fs, None)
      else (case read_file (src_read_ok env) fs file_path of
              Inl e \<Rightarrow> (fs, None)
            | Inr bs \<Rightarrow>
                (case write_file (dst_write env) (dst_mtime env) fs
                        (backup_path_of env file_path) bs of
                   (fs1, Some e) \<Rightarrow> (fs1, None)
                 | (fs1, None) \<Rightarrow>
                     (fst (cleanup_old_backups bm env fs1 file_path),
                      Some (backup_path_of env file_path)))))"

definition restore_from_backup ::
  "(bytes \<Rightarrow> pyval option) \<Rightarrow> io_env \<Rightarrow> filesystem \<Rightarrow> Path \<Rightarrow> filesystem \<times> bool" where
  "restore_from_backup loads env fs file_path =
     (let backup_files = backup_files_of env fs file_path
      in if backup_files = [] then (fs, False)
         else (case sort_by_mtime_desc fs backup_files of
                 Inl e \<Rightarrow> (fs, False)
               | Inr [] \<Rightarrow> (fs, False)
               | Inr (latest_backup # older) \<Rightarrow>
                   if \<not> validate_json_file loads (validate_read_ok env) fs latest_backup
                   then (fs, False)
                   else (case read_file (src_read_ok env) fs latest_backup of
                           Inl e \<Rightarrow> (fs, False)
                         | Inr bs \<Rightarrow>
                             (case write_file (dst_write env) (dst_mtime env) fs file_path bs of
                                (fs1, Some e) \<Rightarrow> (fs1, False)
                              | (fs1, None) \<Rightarrow> (fs1, True)))))"

section \<open>AtomicFileWriter\<close>

text \<open>
  The fields of a writer instance. \<open>lock_locked\<close> is the state of the
  \<^verbatim>\<open>asyncio.Lock\<close> that \<^verbatim>\<open>__init__\<close> creates for the instance.
\<close>

record AtomicFileWriter =
  target_path :: Path
  backup_manager :: "BackupManager option"
  temp_path :: "Path option"
  lock_locked :: bool

definition AtomicFileWriter_init :: "Path \<Rightarrow> BackupManager option \<Rightarrow> AtomicFileWriter" where
  "AtomicFileWriter_init target bm =
     \<lparr>target_path = target, backup_manager = bm, temp_path = None, lock_locked = False\<rparr>"

text \<open>
  What the environment decides during one \<^verbatim>\<open>write_atomic\<close>: whether
  \<^verbatim>\<open>mkdir\<close> succeeds, the value of \<^verbatim>\<open>int(time.time() * 1000000)\<close>, how
  opening and writing the staged file ends and its modification time, the environment
  of the backup manager, and whether \<^verbatim>\<open>Path.replace\<close> succeeds.
\<close>

record write_env =
  mkdir_ok :: bool
  time_us :: nat
  temp_write :: write_outcome
  temp_mtime :: nat
  backup_io :: io_env
  replace_ok :: bool

text \<open>
  A validation callback reads the file system and answers or raises.
\<close>

type_synonym validate_func = "filesystem \<Rightarrow> Path \<Rightarrow> exn + bool"

definition temp_path_of :: "write_env \<Rightarrow> Path \<Rightarrow> Path" where
  "temp_path_of env target =
     \<lparr>parent = parent target,
      name = ''.'' @ stem target @ ''_'' @ str_nat (time_us env) @ ''_tmp'' @ suffix target\<rparr>"

definition create_temp_file :: "write_env \<Rightarrow> AtomicFileWriter \<Rightarrow> exn + AtomicFileWriter" where
  "create_temp_file env w =
     (if \<not> mkdir_ok env then Inl OSError
      else Inr (w\<lparr>temp_path := Some (temp_path_of env (target_path w))\<rparr>))"

text \<open>
  \<^verbatim>\<open>_write_to_temp\<close>. After \<^verbatim>\<open>await f.write(data)\<close> the method evaluates
  \<^verbatim>\<open>await f.fsync()\<close>. The file objects of \<^verbatim>\<open>aiofiles\<close> delegate
  \<^verbatim>\<open>write\<close>, \<^verbatim>\<open>flush\<close>, \<^verbatim>\<open>close\<close> and the other methods of a file,
  and have no attribute \<^verbatim>\<open>fsync\<close>: the attribute lookup raises
  \<^verbatim>\<open>AttributeError\<close> on every call. The \<^verbatim>\<open>async with\<close> block closes the
  file, so the bytes written are stored, and the method logs the exception and raises it
  again. \<^verbatim>\<open>_write_to_temp\<close> therefore never returns normally.
\<close>

definition write_to_temp ::
  "write_env \<Rightarrow> filesystem \<Rightarrow> AtomicFileWriter \<Rightarrow> bytes \<Rightarrow> filesystem \<times> exn option" where
  "write_to_temp env fs w data =
     (case temp_path w of
        None \<Rightarrow> (fs, Some RuntimeError)
      | Some tp \<Rightarrow>
          (case write_file (temp_write env) (temp_mtime env) fs tp data of
             (fs1, Some e) \<Rightarrow> (fs1, Some e)
           | (fs1, None) \<Rightarrow> (fs1, Some AttributeError)))"

text \<open>
  \<^verbatim>\<open>self.temp_path.replace(self.target_path)\<close>: the rename raises when the
  staged file is missing or the operating system refuses; otherwise the staged file,
  with its modification time, becomes the target and its old name is gone.
\<close>

definition atomic_replace :: "write_env \<Rightarrow> filesystem \<Rightarrow> AtomicFileWriter \<Rightarrow> exn + filesystem" where
  "atomic_replace env fs w =
     (case temp_path w of
        None \<Rightarrow> Inl RuntimeError
      | Some tp \<Rightarrow>
          (case map_of fs tp of
             None \<Rightarrow> Inl FileNotFoundError
           | Some f \<Rightarrow>
               if \<not> replace_ok env then Inl OSError
               else Inr (AList.update (target_path w) f (AList.delete tp fs))))"

text \<open>
  Step 3 of \<^verbatim>\<open>write_atomic\<close>,
  \<^verbatim>\<open>if validate_func and not await validate_func(self.temp_path): return False\<close>:
  \<open>Inr True\<close> lets the write go on, \<open>Inr False\<close> is the failed validation and
  \<open>Inl\<close> an exception of the callback.
\<close>

definition validate_step ::
  "validate_func option \<Rightarrow> filesystem \<Rightarrow> AtomicFileWriter \<Rightarrow> exn + bool" where
  "validate_step validate fs w =
     (case validate of
        None \<Rightarrow> Inr True
      | Some vf \<Rightarrow>
          (case temp_path w of
             None \<Rightarrow> Inl RuntimeError
           | Some tp \<Rightarrow> vf fs tp))"

text \<open>
  Step 4,
  \<^verbatim>\<open>if self.backup_manager and self.target_path.exists(): await self.backup_manager.create_backup(self.target_path)\<close>.
  The result of \<^verbatim>\<open>create_backup\<close> is dropped.
\<close>

definition backup_step :: "write_env \<Rightarrow> filesystem \<Rightarrow> AtomicFileWriter \<Rightarrow> filesystem" where
  "backup_step env fs w =
     (case backup_manager w of
        None \<Rightarrow> fs
      | Some bm \<Rightarrow>
          if exists fs (target_path w)
          then fst (create_backup bm (backup_io env) fs (target_path w))
          else fs)"

text \<open>
  \<^verbatim>\<open>write_atomic\<close>: the file system and the writer after the call, and the
  boolean it returns. Every exception inside the \<^verbatim>\<open>try\<close> ends in
  \<^verbatim>\<open>return False\<close>. The steps after \<^verbatim>\<open>_write_to_temp\<close> are written out
  as in the source; since \<^verbatim>\<open>_write_to_temp\<close> always raises, no call reaches
  them.
\<close>

definition write_atomic ::
  "write_env \<Rightarrow> validate_func option \<Rightarrow> filesystem \<Rightarrow> AtomicFileWriter \<Rightarrow> bytes
     \<Rightarrow> filesystem \<times> AtomicFileWriter \<times> bool" where
  "write_atomic env validate fs w data =
     (case create_temp_file env w of
        Inl e \<Rightarrow> (fs, w, False)
      | Inr w1 \<Rightarrow>
          (case write_to_temp env fs w1 data of
             (fs1, Some e) \<Rightarrow> (fs1, w1, False)
           | (fs1, None) \<Rightarrow>
               (case validate_step validate fs1 w1 of
                  Inl e \<Rightarrow> (fs1, w1, False)
                | Inr False \<Rightarrow> (fs1, w1, False)
                | Inr True \<Rightarrow>
                    (case atomic_replace env (backup_step env fs1 w1) w1 of
                       Inl e \<Rightarrow> (backup_step env fs1 w1, w1, False)
                     | Inr fs3 \<Rightarrow> (fs3, w1, True)))))"

text \<open>
  The file system after step 2, when the staged file has been written (or opening or
  writing it has failed).
\<close>

definition staged_fs :: "write_env \<Rightarrow> filesystem \<Rightarrow> AtomicFileWriter \<Rightarrow> bytes \<Rightarrow> filesystem" where
  "staged_fs env fs w data =
     fst (write_file (temp_write env) (temp_mtime env) fs (temp_path_of env (target_path w)) data)"

text \<open>
  \<^verbatim>\<open>__aenter__\<close> acquires the lock of the instance: \<open>None\<close> when the lock is
  held and the caller must wait, otherwise the instance with its lock taken.
\<close>

definition aenter :: "AtomicFileWriter \<Rightarrow> AtomicFileWriter option" where
  "aenter w = (if lock_locked w then None else Some (w\<lparr>lock_locked := True\<rparr>))"

text \<open>
  \<^verbatim>\<open>__aexit__\<close>: the staged file is unlinked if it exists (a failure of the
  unlink is logged and dropped), then the lock is released; releasing a lock that is not
  held raises \<^verbatim>\<open>RuntimeError\<close>.
\<close>

definition aexit ::
  "bool \<Rightarrow> filesystem \<Rightarrow> AtomicFileWriter \<Rightarrow> filesystem \<times> (exn + AtomicFileWriter)" where
  "aexit temp_unlink_ok fs w =
     (let fs' =
        (case temp_path w of
           None \<Rightarrow> fs
         | Some tp \<Rightarrow>
             if exists fs tp
             then (case unlink (\<lambda>p. temp_unlink_ok) fs tp of Inl e \<Rightarrow> fs | Inr fs1 \<Rightarrow> fs1)
             else fs)
      in (fs', if lock_locked w then Inr (w\<lparr>lock_locked := False\<rparr>) else Inl RuntimeError))"

section \<open>SafeWriteConfig\<close>




text \<open>\<^verbatim>\<open>is_enabled\<close>: \<^verbatim>\<open>self.config.get('enable_safe_write', True)\<close>.\<close>

definition is_enabled :: "(string \<times> config_value) list \<Rightarrow> bool" where
  "is_enabled config =
     (case map_of config ''enable_safe_write'' of None \<Rightarrow> True | Some v \<Rightarrow> truthy v)"

section \<open>Specification predicates and sample data\<close>

text \<open>
  A record in the words of claim C3: a dict that contains the five keys
  \<^verbatim>\<open>index\<close>, \<^verbatim>\<open>name\<close>, \<^verbatim>\<open>pre_jp\<close>, \<^verbatim>\<open>post_jp\<close> and
  \<^verbatim>\<open>pre_zh\<close>, each with a value that is a string or an integer. The argument of
  \<open>claimed_value\<close> is the result of looking a key up.
\<close>

fun claimed_value :: "pyval option \<Rightarrow> bool" where
  "claimed_value (Some (PStr s)) = True"
| "claimed_value (Some (PInt n)) = True"
| "claimed_value _ = False"

definition claimed_record_ok :: "pyval \<Rightarrow> bool" where
  "claimed_record_ok item =
     (case item of
        PDict d \<Rightarrow>
          list_all (\<lambda>k. claimed_value (map_of d k))
            [''index'', ''name'', ''pre_jp'', ''post_jp'', ''pre_zh'']
      | _ \<Rightarrow> False)"

text \<open>
  The same with one more kind of value: a string, an integer or a boolean.
\<close>

fun accepted_value :: "pyval option \<Rightarrow> bool" where
  "accepted_value (Some (PStr s)) = True"
| "accepted_value (Some (PInt n)) = True"
| "accepted_value (Some (PBool b)) = True"
| "accepted_value _ = False"

definition accepted_record_ok :: "pyval \<Rightarrow> bool" where
  "accepted_record_ok item =
     (case item of
        PDict d \<Rightarrow>
          list_all (\<lambda>k. accepted_value (map_of d k))
            [''index'', ''name'', ''pre_jp'', ''post_jp'', ''pre_zh'']
      | _ \<Rightarrow> False)"

text \<open>
  A stand-in for \<^verbatim>\<open>orjson.loads\<close> on five documents, used to evaluate the
  validator on concrete files; every other byte string is rejected.
\<close>

definition sample_loads :: "bytes \<Rightarrow> pyval option" where
  \<open>sample_loads bs =
     (if bs = ''[]'' then Some (PList [])
      else if bs = ''{}'' then Some (PDict [])
      else if bs = ''[{"index":0,"name":"n","pre_jp":"a","post_jp":"b","pre_zh":"c"}]''
        then Some (PList [PDict [(''index'', PInt 0), (''name'', PStr ''n''),
                                 (''pre_jp'', PStr ''a''), (''post_jp'', PStr ''b''),
                                 (''pre_zh'', PStr ''c'')]])
      else if bs = ''[{"index":0,"name":"n"}]''
        then Some (PList [PDict [(''index'', PInt 0), (''name'', PStr ''n'')]])
      else if bs = ''[{"index":true,"name":"n","pre_jp":"a","post_jp":"b","pre_zh":"c"}]''
        then Some (PList [PDict [(''index'', PBool True), (''name'', PStr ''n''),
                                 (''pre_jp'', PStr ''a''), (''post_jp'', PStr ''b''),
                                 (''pre_zh'', PStr ''c'')]])
      else None)\<close>

text \<open>
  A matcher for patterns whose only special character is \<^verbatim>\<open>*\<close>, which stands for
  any run of characters; it instantiates the pattern matching of \<^verbatim>\<open>glob\<close> in the
  examples.
\<close>

fun wildcard_match :: "string \<Rightarrow> string \<Rightarrow> bool" where
  "wildcard_match [] s = (s = [])"
| "wildcard_match (c # cs) [] = (c = CHR ''*'' \<and> wildcard_match cs [])"
| "wildcard_match (c # cs) (x # xs) =
     (if c = CHR ''*'' then wildcard_match cs (x # xs) \<or> wildcard_match (c # cs) xs
      else c = x \<and> wildcard_match cs xs)"

text \<open>
  A target file, an environment in which the operating system refuses nothing, and a
  writer, for the examples.
\<close>

definition sample_target :: Path where
  "sample_target = \<lparr>parent = ''proj'', name = ''cache.json''\<rparr>"

definition sample_io :: io_env where
  "sample_io =
     \<lparr>glob_match = wildcard_match, now_stamp = ''20240101_120000'', src_read_ok = True,
      dst_write = Written, dst_mtime = 50, unlink_ok = (\<lambda>p. True), validate_read_ok = True\<rparr>"

definition sample_env :: write_env where
  "sample_env =
     \<lparr>mkdir_ok = True, time_us = 35, temp_write = Written, temp_mtime = 40,
      backup_io = sample_io, replace_ok = True\<rparr>"

definition sample_fs :: filesystem where
  "sample_fs = [(sample_target, \<lparr>content = ''[]'', st_mtime = 10\<rparr>)]"

definition sample_writer :: AtomicFileWriter where
  "sample_writer =
     AtomicFileWriter_init sample_target (Some (BackupManager_init None))"

text \<open>
  The validation callback of the test \<^verbatim>\<open>test_atomic_write_validation_failure\<close>,
  \<^verbatim>\<open>async def mock_validate(file_path): return False\<close>.
\<close>

definition mock_validate_false :: validate_func where
  "mock_validate_false fs file_path = Inr False"

text \<open>\<^verbatim>\<open>DataValidator.validate_json_file\<close> passed as validation callback.\<close>

definition json_validate_func :: "(bytes \<Rightarrow> pyval option) \<Rightarrow> bool \<Rightarrow> validate_func" where
  "json_validate_func loads read_ok fs file_path =
     Inr (validate_json_file loads read_ok fs file_path)"

text \<open>
  A directory with a modified target and two snapshots of it, the newer one holding a
  record.
\<close>

definition sample_snapshots :: filesystem where
  \<open>sample_snapshots =
     [(sample_target, \<lparr>content = ''{}'', st_mtime = 60\<rparr>),
      (\<lparr>parent = ''proj'', name = ''cache_20240101_120000_backup.json''\<rparr>,
       \<lparr>content = ''[]'', st_mtime = 20\<rparr>),
      (\<lparr>parent = ''proj'', name = ''cache_20240102_120000_backup.json''\<rparr>,
       \<lparr>content = ''[{"index":0,"name":"n","pre_jp":"a","post_jp":"b","pre_zh":"c"}]'',
        st_mtime = 30\<rparr>)]\<close>

text \<open>
  A directory in which the older snapshot is valid and the newest one is not a list.
\<close>

definition sample_newest_invalid :: filesystem where
  "sample_newest_invalid =
     [(sample_target, \<lparr>content = ''[]'', st_mtime = 60\<rparr>),
      (\<lparr>parent = ''proj'', name = ''cache_20240101_120000_backup.json''\<rparr>,
       \<lparr>content = ''[]'', st_mtime = 20\<rparr>),
      (\<lparr>parent = ''proj'', name = ''cache_20240102_120000_backup.json''\<rparr>,
       \<lparr>content = ''{}'', st_mtime = 30\<rparr>)]"

text \<open>
  A directory with the target and three snapshots of it; the backup manager of the
  tests, \<^verbatim>\<open>BackupManager({'backup_retention_count': 2})\<close>, and one that keeps one
  snapshot; an environment in which the second snapshot
  cannot be unlinked.
\<close>

definition sample_history :: filesystem where
  "sample_history =
     [(sample_target, \<lparr>content = ''[]'', st_mtime = 60\<rparr>),
      (\<lparr>parent = ''proj'', name = ''cache_20240101_000001_backup.json''\<rparr>,
       \<lparr>content = ''[]'', st_mtime = 21\<rparr>),
      (\<lparr>parent = ''proj'', name = ''cache_20240101_000002_backup.json''\<rparr>,
       \<lparr>content = ''[]'', st_mtime = 22\<rparr>),
      (\<lparr>parent = ''proj'', name = ''cache_20240101_000003_backup.json''\<rparr>,
       \<lparr>content = ''[]'', st_mtime = 23\<rparr>)]"

definition keep_two :: BackupManager where
  "keep_two = BackupManager_init (Some [(''backup_retention_count'', CInt 2)])"

definition keep_one :: BackupManager where
  "keep_one = BackupManager_init (Some [(''backup_retention_count'', CInt 1)])"

definition sample_io_locked :: io_env where
  "sample_io_locked =
     sample_io\<lparr>unlink_ok := (\<lambda>q. name q \<noteq> ''cache_20240101_000002_backup.json'')\<rparr>"


section \<open>Several writer instances\<close>

text \<open>
  The writer instances of a program, addressed by their position in a list: two
  instances are two positions, whatever their fields hold. \<open>enter i\<close> is
  \<^verbatim>\<open>__aenter__\<close> on instance \<open>i\<close>: \<open>None\<close> when the caller has to wait for
  the lock (or there is no such instance). \<open>leave ok i\<close> is \<^verbatim>\<open>__aexit__\<close> on
  instance \<open>i\<close>, with \<open>ok\<close> saying whether the staged file can be unlinked:
  \<open>None\<close> when it raises.
\<close>

definition enter :: "nat \<Rightarrow> AtomicFileWriter list \<Rightarrow> AtomicFileWriter list option" where
  "enter i ws =
     (if i < length ws
      then (case aenter (ws ! i) of None \<Rightarrow> None | Some w \<Rightarrow> Some (ws[i := w]))
      else None)"

definition leave ::
  "bool \<Rightarrow> nat \<Rightarrow> filesystem \<times> AtomicFileWriter list
     \<Rightarrow> (filesystem \<times> AtomicFileWriter list) option" where
  "leave ok i st =
     (case st of
        (fs, ws) \<Rightarrow>
          if i < length ws
          then (case aexit ok fs (ws ! i) of
                  (fs', Inl e) \<Rightarrow> None
                | (fs', Inr w) \<Rightarrow> Some (fs', ws[i := w]))
          else None)"

section \<open>Properties of the validator\<close>

lemma fields_typed_iff:
  "fields_typed d ks \<longleftrightarrow> (\<forall>k\<in>set ks. \<exists>v. map_of d k = Some v \<and> isinstance_str_int v)"
  by (induction ks) (auto split: option.splits)

lemma missing_fields_empty:
  "missing_fields d = [] \<longleftrightarrow> set required_fields \<subseteq> fst ` set d"
  by (auto simp: missing_fields_def filter_empty_conv)

lemma accepted_value_iff:
  "accepted_value x \<longleftrightarrow> (\<exists>v. x = Some v \<and> isinstance_str_int v)"
  by (cases x rule: accepted_value.cases) simp_all

lemma present_key: "map_of d k = Some v \<Longrightarrow> k \<in> fst ` set d"
  by (metis map_of_eq_None_iff option.distinct(1))

lemma accepted_record_ok_iff:
  "accepted_record_ok item \<longleftrightarrow>
     (\<exists>d. item = PDict d \<and> set required_fields \<subseteq> fst ` set d \<and>
        (\<forall>k\<in>set required_fields. \<exists>v. map_of d k = Some v \<and> isinstance_str_int v))"
proof (cases item)
  case (PDict d)
  have "accepted_record_ok (PDict d) \<longleftrightarrow>
          (\<forall>k\<in>set required_fields. \<exists>v. map_of d k = Some v \<and> isinstance_str_int v)"
    by (simp add: accepted_record_ok_def required_fields_def accepted_value_iff)
  moreover have "set required_fields \<subseteq> fst ` set d"
    if "\<forall>k\<in>set required_fields. \<exists>v. map_of d k = Some v \<and> isinstance_str_int v"
    using that present_key[of d] by blast
  ultimately show ?thesis using PDict by auto
qed (simp_all add: accepted_record_ok_def)

lemma check_items_passed:
  "check_items i items = Passed \<longleftrightarrow> (\<forall>item\<in>set items. accepted_record_ok item)"
  by (induction items arbitrary: i)
     (auto simp: accepted_record_ok_iff fields_typed_iff missing_fields_empty split: pyval.splits)

lemma validate_cache_structure_iff:
  "validate_cache_structure data \<longleftrightarrow>
     (\<exists>items. data = PList items \<and> (\<forall>item\<in>set items. accepted_record_ok item))"
  by (auto simp: validate_cache_structure_def cache_structure_verdict_def check_items_passed
      split: pyval.splits)

lemma validate_json_file_structure:
  "validate_json_file loads rd fs p \<longleftrightarrow>
     (\<exists>f data. map_of fs p = Some f \<and> content f \<noteq> [] \<and> rd \<and>
        loads (content f) = Some data \<and> validate_cache_structure data)"
  unfolding validate_json_file_def json_file_verdict_def read_file_def
  by (auto simp: validate_cache_structure_def split: option.splits)

lemma check_items_first_bad:
  "check_items i items \<noteq> Passed \<Longrightarrow>
     \<exists>j<length items. (\<forall>k<j. accepted_record_ok (items ! k)) \<and> \<not> accepted_record_ok (items ! j) \<and>
        check_items i items \<in>
          {ItemNotDict (i + j), ItemMissingFields (i + j), ItemFieldType (i + j)}"
proof (induction items arbitrary: i)
  case Nil
  then show ?case by simp
next
  case (Cons item rest)
  show ?case
  proof (cases "accepted_record_ok item")
    case False
    then have "check_items i (item # rest) \<in> {ItemNotDict i, ItemMissingFields i, ItemFieldType i}"
      by (auto simp: accepted_record_ok_iff fields_typed_iff missing_fields_empty split: pyval.splits)
    with False show ?thesis by (intro exI[of _ 0]) simp
  next
    case True
    then have step: "check_items i (item # rest) = check_items (Suc i) rest"
      by (auto simp: accepted_record_ok_iff fields_typed_iff missing_fields_empty split: pyval.splits)
    with Cons.prems have "check_items (Suc i) rest \<noteq> Passed" by simp
    from Cons.IH[OF this] obtain j where j: "j < length rest" "\<forall>k<j. accepted_record_ok (rest ! k)"
      "\<not> accepted_record_ok (rest ! j)"
      "check_items (Suc i) rest \<in>
         {ItemNotDict (Suc i + j), ItemMissingFields (Suc i + j), ItemFieldType (Suc i + j)}"
      by blast
    have "\<forall>k<Suc j. accepted_record_ok ((item # rest) ! k)"
      using True j(2) by (auto simp: less_Suc_eq_0_disj)
    with j step show ?thesis by (intro exI[of _ "Suc j"]) simp
  qed
qed

lemma verdict_before_items:
  "(map_of fs p = None \<longrightarrow> json_file_verdict loads rd fs p = FileMissing) \<and>
   (\<forall>f. map_of fs p = Some f \<and> content f = [] \<longrightarrow>
        json_file_verdict loads rd fs p = FileEmpty) \<and>
   (\<forall>f. map_of fs p = Some f \<and> content f \<noteq> [] \<and> rd \<and> loads (content f) = None \<longrightarrow>
        json_file_verdict loads rd fs p = JSONFormatError) \<and>
   (\<forall>f data. map_of fs p = Some f \<and> content f \<noteq> [] \<and> rd \<and>
        loads (content f) = Some data \<and> (\<forall>items. data \<noteq> PList items) \<longrightarrow>
        json_file_verdict loads rd fs p = NotAList)"
  unfolding json_file_verdict_def read_file_def
  by (auto simp: validate_cache_structure_def cache_structure_verdict_def
      split: option.splits pyval.splits)

lemma verdict_items:
  assumes "map_of fs p = Some f" "content f \<noteq> []" "rd" "loads (content f) = Some (PList items)"
    "\<not> (\<forall>item\<in>set items. accepted_record_ok item)"
  shows "\<exists>j<length items. (\<forall>k<j. accepted_record_ok (items ! k)) \<and> \<not> accepted_record_ok (items ! j) \<and>
        json_file_verdict loads rd fs p \<in> {ItemNotDict j, ItemMissingFields j, ItemFieldType j}"
proof -
  from assms(5) have np: "check_items 0 items \<noteq> Passed" by (simp add: check_items_passed)
  have "json_file_verdict loads rd fs p = check_items 0 items"
    using assms(1-4) np unfolding json_file_verdict_def read_file_def
    by (simp add: validate_cache_structure_def cache_structure_verdict_def)
  with check_items_first_bad[OF np] show ?thesis by simp
qed

text \<open>
  Claim C3, as the code has it. \<^verbatim>\<open>validate_json_file\<close> returns true exactly
  when the file exists with non-zero size, its bytes can be read and parse as JSON, the
  parsed value is a list, possibly empty, and every element is a dict that holds the five
  required keys, each with a value that is a string, an integer or a boolean. The checks
  are made in that order and the first one that fails ends the validation: a missing
  file is reported whatever the parser would say, then an empty file, then a parse error,
  then a value that is not a list, then the first element that is not such a record.
\<close>

theorem validate_json_file_spec:
  "(validate_json_file loads rd fs p \<longleftrightarrow>
      (\<exists>f. map_of fs p = Some f \<and> content f \<noteq> [] \<and> rd \<and>
         (\<exists>items. loads (content f) = Some (PList items) \<and>
            (\<forall>item\<in>set items. accepted_record_ok item)))) \<and>
   (map_of fs p = None \<longrightarrow> json_file_verdict loads rd fs p = FileMissing) \<and>
   (\<forall>f. map_of fs p = Some f \<and> content f = [] \<longrightarrow>
        json_file_verdict loads rd fs p = FileEmpty) \<and>
   (\<forall>f. map_of fs p = Some f \<and> content f \<noteq> [] \<and> rd \<and> loads (content f) = None \<longrightarrow>
        json_file_verdict loads rd fs p = JSONFormatError) \<and>
   (\<forall>f data. map_of fs p = Some f \<and> content f \<noteq> [] \<and> rd \<and>
        loads (content f) = Some data \<and> (\<forall>items. data \<noteq> PList items) \<longrightarrow>
        json_file_verdict loads rd fs p = NotAList) \<and>
   (\<forall>f items. map_of fs p = Some f \<and> content f \<noteq> [] \<and> rd \<and>
        loads (content f) = Some (PList items) \<and>
        \<not> (\<forall>item\<in>set items. accepted_record_ok item) \<longrightarrow>
        (\<exists>j<length items. (\<forall>k<j. accepted_record_ok (items ! k)) \<and>
           \<not> accepted_record_ok (items ! j) \<and>
           json_file_verdict loads rd fs p \<in>
             {ItemNotDict j, ItemMissingFields j, ItemFieldType j}))"
proof -
  have main: "validate_json_file loads rd fs p \<longleftrightarrow>
      (\<exists>f. map_of fs p = Some f \<and> content f \<noteq> [] \<and> rd \<and>
         (\<exists>items. loads (content f) = Some (PList items) \<and>
            (\<forall>item\<in>set items. accepted_record_ok item)))"
    unfolding validate_json_file_structure validate_cache_structure_iff by blast
  have items: "\<forall>f items. map_of fs p = Some f \<and> content f \<noteq> [] \<and> rd \<and>
        loads (content f) = Some (PList items) \<and>
        \<not> (\<forall>item\<in>set items. accepted_record_ok item) \<longrightarrow>
        (\<exists>j<length items. (\<forall>k<j. accepted_record_ok (items ! k)) \<and>
           \<not> accepted_record_ok (items ! j) \<and>
           json_file_verdict loads rd fs p \<in>
             {ItemNotDict j, ItemMissingFields j, ItemFieldType j})"
    using verdict_items by blast
  from main verdict_before_items[of fs p loads rd] items show ?thesis by blast
qed

theorem validate_json_file_spec_witness:
  \<open>validate_json_file sample_loads True
     [(\<lparr>parent = ''d'', name = ''cache.json''\<rparr>,
       \<lparr>content = ''[{"index":0,"name":"n","pre_jp":"a","post_jp":"b","pre_zh":"c"}]'',
        st_mtime = 1\<rparr>)]
     \<lparr>parent = ''d'', name = ''cache.json''\<rparr> \<and>
   json_file_verdict sample_loads True
     [(\<lparr>parent = ''d'', name = ''cache.json''\<rparr>,
       \<lparr>content = ''[{"index":0,"name":"n"}]'', st_mtime = 1\<rparr>)]
     \<lparr>parent = ''d'', name = ''cache.json''\<rparr> \<in>
       {ItemNotDict 0, ItemMissingFields 0, ItemFieldType 0}\<close>
proof -
  let ?p = "\<lparr>parent = ''d'', name = ''cache.json''\<rparr>"
  let ?good = \<open>\<lparr>content = ''[{"index":0,"name":"n","pre_jp":"a","post_jp":"b","pre_zh":"c"}]'',
        st_mtime = 1\<rparr>\<close>
  let ?bad = \<open>\<lparr>content = ''[{"index":0,"name":"n"}]'', st_mtime = 1\<rparr>\<close>
  have a: "validate_json_file sample_loads True [(?p, ?good)] ?p"
    using validate_json_file_spec[of sample_loads True "[(?p, ?good)]" ?p]
    by (simp add: sample_loads_def accepted_record_ok_def)
  have "\<exists>j<length [PDict [(''index'', PInt 0), (''name'', PStr ''n'')]].
          json_file_verdict sample_loads True [(?p, ?bad)] ?p \<in>
             {ItemNotDict j, ItemMissingFields j, ItemFieldType j}"
    using validate_json_file_spec[of sample_loads True "[(?p, ?bad)]" ?p]
    by (simp add: sample_loads_def accepted_record_ok_def)
  then have b: "json_file_verdict sample_loads True [(?p, ?bad)] ?p \<in>
       {ItemNotDict 0, ItemMissingFields 0, ItemFieldType 0}"
    by simp
  from a b show ?thesis by simp
qed

text \<open>
  Claim C3, as stated, fails. The JSON value \<^verbatim>\<open>true\<close> parses to the boolean
  \<^verbatim>\<open>True\<close>, which is an instance of \<^verbatim>\<open>int\<close>: a file whose record holds
  \<^verbatim>\<open>"index": true\<close> passes the validation although that value is neither a string
  nor an integer.
\<close>

theorem boolean_value_counterexample:
  \<open>validate_json_file sample_loads True
     [(\<lparr>parent = ''d'', name = ''cache.json''\<rparr>,
       \<lparr>content = ''[{"index":true,"name":"n","pre_jp":"a","post_jp":"b","pre_zh":"c"}]'',
        st_mtime = 1\<rparr>)]
     \<lparr>parent = ''d'', name = ''cache.json''\<rparr> \<and>
   sample_loads ''[{"index":true,"name":"n","pre_jp":"a","post_jp":"b","pre_zh":"c"}]'' =
     Some (PList [PDict [(''index'', PBool True), (''name'', PStr ''n''),
                         (''pre_jp'', PStr ''a''), (''post_jp'', PStr ''b''),
                         (''pre_zh'', PStr ''c'')]]) \<and>
   \<not> claimed_record_ok
        (PDict [(''index'', PBool True), (''name'', PStr ''n''), (''pre_jp'', PStr ''a''),
                (''post_jp'', PStr ''b''), (''pre_zh'', PStr ''c'')])\<close>
  by (simp add: validate_json_file_def json_file_verdict_def read_file_def
      validate_cache_structure_def cache_structure_verdict_def missing_fields_def
      required_fields_def sample_loads_def claimed_record_ok_def)

text \<open>
  Claim C10. A list whose elements are dicts with all five required keys passes
  \<^verbatim>\<open>_validate_cache_structure\<close> also when required keys hold booleans: a value
  may be a string, an integer or a boolean, since \<^verbatim>\<open>isinstance(True, int)\<close>
  holds.
\<close>

theorem validate_cache_structure_accepts_bool:
  assumes "\<forall>item\<in>set items. \<exists>d. item = PDict d \<and> set required_fields \<subseteq> fst ` set d \<and>
             (\<forall>k\<in>set required_fields. \<exists>v. map_of d k = Some v \<and>
                ((\<exists>b. v = PBool b) \<or> (\<exists>s. v = PStr s) \<or> (\<exists>n. v = PInt n)))"
  shows "validate_cache_structure (PList items)"
proof -
  have "accepted_record_ok item" if "item \<in> set items" for item
  proof -
    from assms that obtain d where d: "item = PDict d" "set required_fields \<subseteq> fst ` set d"
      "\<forall>k\<in>set required_fields. \<exists>v. map_of d k = Some v \<and>
                ((\<exists>b. v = PBool b) \<or> (\<exists>s. v = PStr s) \<or> (\<exists>n. v = PInt n))"
      by blast
    from d(3) have "\<forall>k\<in>set required_fields. \<exists>v. map_of d k = Some v \<and> isinstance_str_int v"
      by fastforce
    with d(1,2) show ?thesis by (simp add: accepted_record_ok_iff)
  qed
  then show ?thesis by (simp add: validate_cache_structure_iff)
qed

theorem validate_cache_structure_accepts_bool_witness:
  "validate_cache_structure
     (PList [PDict [(''index'', PBool True), (''name'', PBool False), (''pre_jp'', PStr ''a''),
                    (''post_jp'', PInt 7), (''pre_zh'', PBool True)]])"
  using validate_cache_structure_accepts_bool
    [of "[PDict [(''index'', PBool True), (''name'', PBool False), (''pre_jp'', PStr ''a''),
                 (''post_jp'', PInt 7), (''pre_zh'', PBool True)]]"]
  by (auto simp: required_fields_def)

section \<open>Evaluation of the examples\<close>

lemmas sample_defs = sample_env_def sample_io_def sample_target_def sample_fs_def sample_writer_def
  AtomicFileWriter_init_def BackupManager_init_def mock_validate_false_def

lemmas path_defs = stem_def suffix_def temp_path_of_def backup_path_of_def backup_pattern_def
  str_nat.simps

lemmas fs_defs = write_file_def read_file_def exists_def glob_def unlink_def mtime_of_def
  sort_by_mtime_desc_def slice_from_def backup_files_of_def

lemmas op_defs = write_atomic_def create_temp_file_def write_to_temp_def validate_step_def
  backup_step_def atomic_replace_def create_backup_def cleanup_old_backups_def
  restore_from_backup_def aexit_def aenter_def staged_fs_def

section \<open>Properties of the atomic writer\<close>

lemma stem_suffix: "stem p @ suffix p = name p"
  by (simp add: stem_def suffix_def Let_def)

lemma temp_path_neq_target: "temp_path_of env t \<noteq> t"
proof
  assume "temp_path_of env t = t"
  then have "name (temp_path_of env t) = name t" by simp
  then have "length (name (temp_path_of env t)) = length (stem t @ suffix t)"
    by (simp add: stem_suffix)
  then show False by (simp add: temp_path_of_def)
qed

lemma write_file_other:
  "q \<noteq> p \<Longrightarrow> map_of (fst (write_file oc now fs p data)) q = map_of fs q"
  by (cases oc) (simp_all add: write_file_def update_conv')



lemma staged_fs_target: "map_of (staged_fs env fs w data) (target_path w) = map_of fs (target_path w)"
  unfolding staged_fs_def using temp_path_neq_target[of env "target_path w"]
  by (intro write_file_other) auto

text \<open>
  \<^verbatim>\<open>_write_to_temp\<close> raises on every call, and so \<^verbatim>\<open>write_atomic\<close> ends in
  its \<^verbatim>\<open>except\<close> clause on every call: after \<^verbatim>\<open>mkdir\<close> has failed, or after
  the staging has.
\<close>

lemma write_to_temp_raises: "snd (write_to_temp env fs w data) \<noteq> None"
  by (auto simp: write_to_temp_def split: option.splits prod.splits)

lemma write_atomic_fails:
  "write_atomic env validate fs w data =
     (if mkdir_ok env
      then (staged_fs env fs w data,
            w\<lparr>temp_path := Some (temp_path_of env (target_path w))\<rparr>, False)
      else (fs, w, False))"
proof (cases "mkdir_ok env")
  case False
  then show ?thesis by (simp add: write_atomic_def create_temp_file_def)
next
  case True
  let ?w1 = "w\<lparr>temp_path := Some (temp_path_of env (target_path w))\<rparr>"
  have ct: "create_temp_file env w = Inr ?w1"
    using True by (simp add: create_temp_file_def)
  obtain fs1 r where wt: "write_to_temp env fs ?w1 data = (fs1, r)"
    by (cases "write_to_temp env fs ?w1 data") auto
  from write_to_temp_raises[of env fs ?w1 data] wt obtain e where r: "r = Some e"
    by (cases r) auto
  have "fs1 = staged_fs env fs w data"
    using wt by (auto simp: write_to_temp_def staged_fs_def split: prod.splits option.splits)
  then show ?thesis
    using True by (simp add: write_atomic_def ct wt r)
qed

text \<open>
  Claim C2. When the validation callback answers false on the staged file,
  \<^verbatim>\<open>write_atomic\<close> returns false and the target is what it was before the call:
  the same file, or still absent.
\<close>

theorem validation_gate:
  assumes "vf (staged_fs env fs w data) (temp_path_of env (target_path w)) = Inr False"
  shows "(case write_atomic env (Some vf) fs w data of
            (fs', w', ok) \<Rightarrow> \<not> ok \<and> map_of fs' (target_path w) = map_of fs (target_path w))"
  by (simp add: write_atomic_fails staged_fs_target)

theorem validation_gate_witness:
  "\<not> snd (snd (write_atomic sample_env (Some mock_validate_false) sample_fs sample_writer ''[1]'')) \<and>
   map_of (fst (write_atomic sample_env (Some mock_validate_false) sample_fs sample_writer ''[1]''))
     sample_target = Some \<lparr>content = ''[]'', st_mtime = 10\<rparr> \<and>
   \<not> snd (snd (write_atomic sample_env (Some mock_validate_false) [] sample_writer ''[1]'')) \<and>
   map_of (fst (write_atomic sample_env (Some mock_validate_false) [] sample_writer ''[1]''))
     sample_target = None \<and>
   \<not> snd (snd (write_atomic sample_env (Some (json_validate_func sample_loads True)) sample_fs
               sample_writer ''{}'')) \<and>
   map_of (fst (write_atomic sample_env (Some (json_validate_func sample_loads True)) sample_fs
                  sample_writer ''{}''))
     sample_target = Some \<lparr>content = ''[]'', st_mtime = 10\<rparr>"
proof -
  have t: "target_path sample_writer = sample_target"
    by (simp add: sample_writer_def AtomicFileWriter_init_def)
  have v: "mock_validate_false fs1 p = Inr False" for fs1 p
    by (simp add: mock_validate_false_def)
  have a: "map_of sample_fs sample_target = Some \<lparr>content = ''[]'', st_mtime = 10\<rparr>"
    by (simp add: sample_fs_def)
  have j: "json_validate_func sample_loads True (staged_fs sample_env sample_fs sample_writer ''{}'')
             (temp_path_of sample_env (target_path sample_writer)) = Inr False"
    by (simp add: json_validate_func_def validate_json_file_def json_file_verdict_def
        validate_cache_structure_def cache_structure_verdict_def sample_loads_def
        sample_defs path_defs fs_defs staged_fs_def)
  show ?thesis
    using validation_gate[of mock_validate_false sample_env sample_fs sample_writer "''[1]''", OF v]
      validation_gate[of mock_validate_false sample_env "[]" sample_writer "''[1]''", OF v]
      validation_gate[of "json_validate_func sample_loads True" sample_env sample_fs sample_writer
        "''{}''", OF j]
    by (simp add: t a split: prod.splits)
qed

text \<open>
  Claim C1. After \<^verbatim>\<open>write_atomic\<close> returns, the target holds either exactly what
  it held before the call (or is still absent) or the complete new content, and an
  exception leads to a failure result with the target unmodified. In the code every call
  meets an exception in step 1 or in step 2 (\<^verbatim>\<open>_write_to_temp\<close> always raises):
  every call returns false and leaves the target's entry, content and modification time
  or absence, as it was. Validation, backup and replace are never reached.
\<close>

theorem all_or_nothing:
  "(case write_atomic env validate fs w data of
      (fs', w', ok) \<Rightarrow>
        (map_of fs' (target_path w) = map_of fs (target_path w) \<or>
         (\<exists>f. map_of fs' (target_path w) = Some f \<and> content f = data)) \<and>
        \<not> ok \<and> map_of fs' (target_path w) = map_of fs (target_path w)) \<and>
   (\<exists>e. create_temp_file env w = Inl e \<or>
        (\<exists>w1 fs1. create_temp_file env w = Inr w1 \<and>
           write_to_temp env fs w1 data = (fs1, Some e)))"
proof -
  have "\<exists>e. create_temp_file env w = Inl e \<or>
        (\<exists>w1 fs1. create_temp_file env w = Inr w1 \<and>
           write_to_temp env fs w1 data = (fs1, Some e))"
  proof (cases "create_temp_file env w")
    case (Inl e)
    then show ?thesis by blast
  next
    case (Inr w1)
    obtain fs1 r where wt: "write_to_temp env fs w1 data = (fs1, r)"
      by (cases "write_to_temp env fs w1 data") auto
    from write_to_temp_raises[of env fs w1 data] wt obtain e where "r = Some e"
      by (cases r) auto
    with Inr wt show ?thesis by blast
  qed
  then show ?thesis by (simp add: write_atomic_fails staged_fs_target)
qed

theorem all_or_nothing_witness:
  "write_atomic sample_env None sample_fs sample_writer ''[1]'' =
     ([(sample_target, \<lparr>content = ''[]'', st_mtime = 10\<rparr>),
       (\<lparr>parent = ''proj'', name = ''.cache_35_tmp.json''\<rparr>,
        \<lparr>content = ''[1]'', st_mtime = 40\<rparr>)],
      sample_writer\<lparr>temp_path := Some \<lparr>parent = ''proj'', name = ''.cache_35_tmp.json''\<rparr>\<rparr>,
      False) \<and>
   map_of (fst (write_atomic (sample_env\<lparr>temp_write := WriteFailed 1\<rparr>) None sample_fs
                  sample_writer ''[1]''))
     sample_target = Some \<lparr>content = ''[]'', st_mtime = 10\<rparr> \<and>
   map_of (fst (write_atomic (sample_env\<lparr>mkdir_ok := False\<rparr>) None [] sample_writer ''[1]''))
     sample_target = None"
proof -
  have t: "target_path sample_writer = sample_target"
    by (simp add: sample_writer_def AtomicFileWriter_init_def)
  have a: "map_of sample_fs sample_target = Some \<lparr>content = ''[]'', st_mtime = 10\<rparr>"
    by (simp add: sample_fs_def)
  have 1: "write_atomic sample_env None sample_fs sample_writer ''[1]'' =
     ([(sample_target, \<lparr>content = ''[]'', st_mtime = 10\<rparr>),
       (\<lparr>parent = ''proj'', name = ''.cache_35_tmp.json''\<rparr>,
        \<lparr>content = ''[1]'', st_mtime = 40\<rparr>)],
      sample_writer\<lparr>temp_path := Some \<lparr>parent = ''proj'', name = ''.cache_35_tmp.json''\<rparr>\<rparr>,
      False)"
    by (simp add: sample_defs path_defs fs_defs op_defs)
  from all_or_nothing[where env = "sample_env\<lparr>temp_write := WriteFailed 1\<rparr>"
      and validate = None and fs = sample_fs and w = sample_writer and data = "''[1]''"]
  have 2: "map_of (fst (write_atomic (sample_env\<lparr>temp_write := WriteFailed 1\<rparr>) None sample_fs
                  sample_writer ''[1]''))
     sample_target = Some \<lparr>content = ''[]'', st_mtime = 10\<rparr>"
    by (simp add: t a split: prod.splits)
  from all_or_nothing[where env = "sample_env\<lparr>mkdir_ok := False\<rparr>" and validate = None
      and fs = "[]" and w = sample_writer and data = "''[1]''"]
  have 3: "map_of (fst (write_atomic (sample_env\<lparr>mkdir_ok := False\<rparr>) None [] sample_writer
                  ''[1]''))
     sample_target = None"
    by (simp add: t split: prod.splits)
  from 1 2 3 show ?thesis by simp
qed




section \<open>Properties of the backup manager\<close>

lemma backup_files_exist:
  "q \<in> set (backup_files_of env fs p) \<Longrightarrow> map_of fs q \<noteq> None"
  by (auto simp: backup_files_of_def glob_def map_of_eq_None_iff)

lemma sort_by_mtime_desc_total:
  "sort_by_mtime_desc fs (backup_files_of env fs p) =
     Inr (sort_key (\<lambda>q. - int (mtime_of fs q)) (backup_files_of env fs p))"
  using backup_files_exist[of _ env fs p]
  by (auto simp: sort_by_mtime_desc_def list_ex_iff)

lemma sort_key_head:
  assumes "sort_key f xs = y # ys"
  shows "y \<in> set xs \<and> (\<forall>x\<in>set xs. f y \<le> f x)"
proof -
  have "sorted (map f (y # ys))" using sorted_sort_key[of f xs] assms by simp
  moreover have "set (y # ys) = set xs" using set_sort[of f xs] assms by simp
  ultimately show ?thesis by auto
qed

lemma restore_none:
  "backup_files_of env fs p = [] \<Longrightarrow> restore_from_backup loads env fs p = (fs, False)"
  by (simp add: restore_from_backup_def)

lemma restore_some:
  assumes "backup_files_of env fs p \<noteq> []"
  shows "\<exists>latest f. latest \<in> set (backup_files_of env fs p) \<and> map_of fs latest = Some f \<and>
     (\<forall>b\<in>set (backup_files_of env fs p). mtime_of fs b \<le> mtime_of fs latest) \<and>
     restore_from_backup loads env fs p =
       (if \<not> validate_json_file loads (validate_read_ok env) fs latest then (fs, False)
        else if \<not> src_read_ok env then (fs, False)
        else (fst (write_file (dst_write env) (dst_mtime env) fs p (content f)),
              snd (write_file (dst_write env) (dst_mtime env) fs p (content f)) = None))"
proof -
  let ?bfs = "backup_files_of env fs p"
  let ?sorted = "sort_key (\<lambda>q. - int (mtime_of fs q)) ?bfs"
  from assms have "?sorted \<noteq> []" by (metis length_sort list.size(3) length_0_conv)
  then obtain latest older where so: "?sorted = latest # older" by (cases ?sorted) auto
  from sort_key_head[OF so] have l: "latest \<in> set ?bfs"
    "\<forall>b\<in>set ?bfs. mtime_of fs b \<le> mtime_of fs latest" by auto
  from backup_files_exist[OF l(1)] obtain f where f: "map_of fs latest = Some f" by auto
  have "restore_from_backup loads env fs p =
       (if \<not> validate_json_file loads (validate_read_ok env) fs latest then (fs, False)
        else if \<not> src_read_ok env then (fs, False)
        else (fst (write_file (dst_write env) (dst_mtime env) fs p (content f)),
              snd (write_file (dst_write env) (dst_mtime env) fs p (content f)) = None))"
    using assms
    by (auto simp: restore_from_backup_def sort_by_mtime_desc_total so read_file_def f
        split: prod.splits option.splits)
  with l f show ?thesis by blast
qed


text \<open>
  Claim C5, as the code has it. Without a snapshot matching the backup pattern of the
  path, \<^verbatim>\<open>restore_from_backup\<close> returns false and changes nothing. Otherwise it
  picks a snapshot of greatest modification time and looks at no other one: when that
  snapshot passes validation and the copy succeeds, the target holds the snapshot's bytes
  and the result is true; when that snapshot fails validation the result is false and
  nothing is changed, whatever the older snapshots hold; when the copy fails the result
  is false.
\<close>

theorem restore_from_backup_spec:
  "(backup_files_of env fs p = [] \<longrightarrow> restore_from_backup loads env fs p = (fs, False)) \<and>
   (backup_files_of env fs p \<noteq> [] \<longrightarrow>
      (\<exists>latest f. latest \<in> set (backup_files_of env fs p) \<and> map_of fs latest = Some f \<and>
         (\<forall>b\<in>set (backup_files_of env fs p). mtime_of fs b \<le> mtime_of fs latest) \<and>
         (validate_json_file loads (validate_read_ok env) fs latest \<and> src_read_ok env \<and>
          dst_write env = Written \<longrightarrow>
            snd (restore_from_backup loads env fs p) \<and>
            map_of (fst (restore_from_backup loads env fs p)) p =
              Some \<lparr>content = content f, st_mtime = dst_mtime env\<rparr>) \<and>
         (\<not> validate_json_file loads (validate_read_ok env) fs latest \<longrightarrow>
            restore_from_backup loads env fs p = (fs, False)) \<and>
         (\<not> src_read_ok env \<or> dst_write env \<noteq> Written \<longrightarrow>
            \<not> snd (restore_from_backup loads env fs p))))"
proof (cases "backup_files_of env fs p = []")
  case True
  then show ?thesis by (simp add: restore_none)
next
  case False
  from restore_some[OF False, of loads] obtain latest f where
    l: "latest \<in> set (backup_files_of env fs p)" "map_of fs latest = Some f"
       "\<forall>b\<in>set (backup_files_of env fs p). mtime_of fs b \<le> mtime_of fs latest" and
    r: "restore_from_backup loads env fs p =
       (if \<not> validate_json_file loads (validate_read_ok env) fs latest then (fs, False)
        else if \<not> src_read_ok env then (fs, False)
        else (fst (write_file (dst_write env) (dst_mtime env) fs p (content f)),
              snd (write_file (dst_write env) (dst_mtime env) fs p (content f)) = None))"
    by blast
  have w: "dst_write env \<noteq> Written \<Longrightarrow>
             snd (write_file (dst_write env) (dst_mtime env) fs p (content f)) \<noteq> None"
    by (cases "dst_write env") (simp_all add: write_file_def)
  have "(validate_json_file loads (validate_read_ok env) fs latest \<and> src_read_ok env \<and>
          dst_write env = Written \<longrightarrow>
            snd (restore_from_backup loads env fs p) \<and>
            map_of (fst (restore_from_backup loads env fs p)) p =
              Some \<lparr>content = content f, st_mtime = dst_mtime env\<rparr>) \<and>
         (\<not> validate_json_file loads (validate_read_ok env) fs latest \<longrightarrow>
            restore_from_backup loads env fs p = (fs, False)) \<and>
         (\<not> src_read_ok env \<or> dst_write env \<noteq> Written \<longrightarrow>
            \<not> snd (restore_from_backup loads env fs p))"
    using w by (auto simp: r write_file_def update_conv')
  with l False show ?thesis by blast
qed

theorem restore_from_backup_spec_witness:
  \<open>snd (restore_from_backup sample_loads sample_io sample_snapshots sample_target) \<and>
   map_of (fst (restore_from_backup sample_loads sample_io sample_snapshots sample_target))
     sample_target =
     Some \<lparr>content = ''[{"index":0,"name":"n","pre_jp":"a","post_jp":"b","pre_zh":"c"}]'',
           st_mtime = 50\<rparr> \<and>
   restore_from_backup sample_loads sample_io sample_fs sample_target = (sample_fs, False)\<close>
proof -
  let ?b1 = "\<lparr>parent = ''proj'', name = ''cache_20240101_120000_backup.json''\<rparr>"
  let ?b2 = "\<lparr>parent = ''proj'', name = ''cache_20240102_120000_backup.json''\<rparr>"
  have bf: "backup_files_of sample_io sample_snapshots sample_target = [?b1, ?b2]"
    by (simp add: sample_defs sample_snapshots_def path_defs fs_defs)
  have none: "backup_files_of sample_io sample_fs sample_target = []"
    by (simp add: sample_defs path_defs fs_defs)
  have m: "mtime_of sample_snapshots ?b1 = 20" "mtime_of sample_snapshots ?b2 = 30"
    by (simp_all add: sample_defs sample_snapshots_def mtime_of_def)
  have env: "validate_read_ok sample_io" "src_read_ok sample_io" "dst_write sample_io = Written"
    "dst_mtime sample_io = 50"
    by (simp_all add: sample_io_def)
  from restore_from_backup_spec[of sample_io sample_snapshots sample_target sample_loads] bf
  obtain latest f where l: "latest \<in> {?b1, ?b2}" "map_of sample_snapshots latest = Some f"
    "\<forall>b\<in>{?b1, ?b2}. mtime_of sample_snapshots b \<le> mtime_of sample_snapshots latest"
    and r: "validate_json_file sample_loads True sample_snapshots latest \<longrightarrow>
            snd (restore_from_backup sample_loads sample_io sample_snapshots sample_target) \<and>
            map_of (fst (restore_from_backup sample_loads sample_io sample_snapshots sample_target))
              sample_target = Some \<lparr>content = content f, st_mtime = 50\<rparr>"
    by (auto simp: env)
  from l(1,3) m have latest: "latest = ?b2" by auto
  have f: \<open>content f = ''[{"index":0,"name":"n","pre_jp":"a","post_jp":"b","pre_zh":"c"}]''\<close>
    using l(2) by (auto simp: latest sample_snapshots_def sample_target_def)
  have v: "validate_json_file sample_loads True sample_snapshots ?b2"
    by (simp add: validate_json_file_structure validate_cache_structure_iff sample_snapshots_def
        sample_target_def sample_loads_def accepted_record_ok_def)
  from restore_from_backup_spec[of sample_io sample_fs sample_target sample_loads] none
  have "restore_from_backup sample_loads sample_io sample_fs sample_target = (sample_fs, False)"
    by simp
  with r v f show ?thesis by (simp add: latest)
qed

text \<open>
  Claim C5, as stated, fails. A valid snapshot is present, but a newer snapshot is not
  valid (its JSON value is not a list): \<^verbatim>\<open>restore_from_backup\<close> returns false and
  changes nothing, it does not fall back to the valid one.
\<close>

theorem newest_invalid_counterexample:
  "validate_json_file sample_loads True sample_newest_invalid
     \<lparr>parent = ''proj'', name = ''cache_20240101_120000_backup.json''\<rparr> \<and>
   backup_files_of sample_io sample_newest_invalid sample_target =
     [\<lparr>parent = ''proj'', name = ''cache_20240101_120000_backup.json''\<rparr>,
      \<lparr>parent = ''proj'', name = ''cache_20240102_120000_backup.json''\<rparr>] \<and>
   restore_from_backup sample_loads sample_io sample_newest_invalid sample_target =
     (sample_newest_invalid, False)"
  by (simp add: sample_newest_invalid_def sample_defs path_defs fs_defs op_defs
      validate_json_file_def json_file_verdict_def validate_cache_structure_def
      cache_structure_verdict_def sample_loads_def)

lemma map_of_filter_keys:
  "map_of (filter (\<lambda>e. fst e \<notin> A) fs) k = (if k \<in> A then None else map_of fs k)"
  by (induction fs) auto

lemma delete_as_filter: "AList.delete p fs = filter (\<lambda>e. fst e \<noteq> p) fs"
  by (induction fs) auto

lemma unlink_each_all:
  assumes "distinct ps" "\<forall>q\<in>set ps. map_of fs q \<noteq> None" "\<forall>q\<in>set ps. ok q"
  shows "unlink_each ok fs ps = (filter (\<lambda>e. fst e \<notin> set ps) fs, None)"
  using assms
proof (induction ps arbitrary: fs)
  case Nil
  then show ?case by simp
next
  case (Cons p ps)
  have u: "unlink ok fs p = Inr (AList.delete p fs)"
    using Cons.prems by (simp add: unlink_def)
  have ex: "\<forall>q\<in>set ps. map_of (AList.delete p fs) q \<noteq> None"
    using Cons.prems by (auto simp: delete_conv')
  have "unlink_each ok (AList.delete p fs) ps =
          (filter (\<lambda>e. fst e \<notin> set ps) (AList.delete p fs), None)"
    using Cons.IH[OF _ ex] Cons.prems by simp
  then show ?case by (simp add: u delete_as_filter conj_commute)
qed

lemma unlink_each_stops:
  assumes "distinct (xs @ q # ys)" "\<forall>k\<in>set (xs @ q # ys). map_of fs k \<noteq> None"
    "\<forall>k\<in>set xs. ok k" "\<not> ok q"
  shows "unlink_each ok fs (xs @ q # ys) = (filter (\<lambda>e. fst e \<notin> set xs) fs, Some OSError)"
  using assms
proof (induction xs arbitrary: fs)
  case Nil
  then show ?case by (simp add: unlink_def)
next
  case (Cons p xs)
  have u: "unlink ok fs p = Inr (AList.delete p fs)"
    using Cons.prems by (simp add: unlink_def)
  have ex: "\<forall>k\<in>set (xs @ q # ys). map_of (AList.delete p fs) k \<noteq> None"
    using Cons.prems by (auto simp: delete_conv')
  have "unlink_each ok (AList.delete p fs) (xs @ q # ys) =
          (filter (\<lambda>e. fst e \<notin> set xs) (AList.delete p fs), Some OSError)"
    using Cons.IH[OF _ ex] Cons.prems by simp
  then show ?case by (simp add: u delete_as_filter conj_commute)
qed

lemma backup_files_distinct:
  "distinct (map fst fs) \<Longrightarrow> distinct (backup_files_of env fs p)"
  by (simp add: backup_files_of_def glob_def)

lemma backup_files_filter:
  "backup_files_of env (filter (\<lambda>e. fst e \<notin> A) fs) p =
     filter (\<lambda>q. q \<notin> A) (backup_files_of env fs p)"
  by (induction fs) (auto simp: backup_files_of_def glob_def)


lemma cleanup_prunes:
  assumes d: "distinct (map fst fs)" and rc: "0 \<le> retention_count bm"
    and ok: "\<forall>q\<in>set (drop (nat (retention_count bm))
               (sort_key (\<lambda>q. - int (mtime_of fs q)) (backup_files_of env fs p))). unlink_ok env q"
  shows "cleanup_old_backups bm env fs p =
           (filter (\<lambda>e. fst e \<notin> set (drop (nat (retention_count bm))
               (sort_key (\<lambda>q. - int (mtime_of fs q)) (backup_files_of env fs p)))) fs, None)"
proof (cases "int (length (backup_files_of env fs p)) \<le> retention_count bm")
  case True
  then have "drop (nat (retention_count bm))
               (sort_key (\<lambda>q. - int (mtime_of fs q)) (backup_files_of env fs p)) = []"
    by simp
  with True show ?thesis by (simp add: cleanup_old_backups_def)
next
  case False
  let ?sorted = "sort_key (\<lambda>q. - int (mtime_of fs q)) (backup_files_of env fs p)"
  let ?del = "drop (nat (retention_count bm)) ?sorted"
  have ds: "distinct ?sorted" using backup_files_distinct[OF d, of env p] by simp
  then have dd: "distinct ?del" by simp
  have ex: "\<forall>q\<in>set ?del. map_of fs q \<noteq> None"
    using backup_files_exist[of _ env fs p] by (auto dest: in_set_dropD)
  have sl: "slice_from ?sorted (retention_count bm) = ?del"
    using rc by (simp add: slice_from_def)
  show ?thesis
    using False unlink_each_all[OF dd ex ok]
    by (simp add: cleanup_old_backups_def sort_by_mtime_desc_total sl)
qed

lemma take_drop_sorted_keys:
  assumes "sorted (map f xs)" "s \<in> set (take n xs)" "d \<in> set (drop n xs)"
  shows "f s \<le> f d"
proof -
  have "sorted (map f (take n xs) @ map f (drop n xs))"
    using assms(1) by (metis append_take_drop_id map_append)
  then show ?thesis using assms(2,3) by (auto simp: sorted_append)
qed

text \<open>
  Claim C4, as the code has it. When \<^verbatim>\<open>create_backup\<close> reaches the pruning
  step (backups enabled, the file exists and its copy succeeds), the retention count is
  not negative and every deletion of the pruning pass succeeds, then afterwards the
  snapshots matching the pattern of the path number at most \<^verbatim>\<open>retention_count\<close>;
  they are the first \<^verbatim>\<open>retention_count\<close> of the snapshots present after the copy
  in newest-first order, unchanged, and none of the deleted snapshots is newer than a
  surviving one.
\<close>

theorem retention_after_backup:
  fixes bm :: BackupManager and env :: io_env and fs :: filesystem and p :: Path and f :: inode
  defines "fs1 \<equiv> AList.update (backup_path_of env p)
                     \<lparr>content = content f, st_mtime = dst_mtime env\<rparr> fs"
  defines "newest_first \<equiv> sort_key (\<lambda>q. - int (mtime_of fs1 q)) (backup_files_of env fs1 p)"
  assumes d: "distinct (map fst fs)" and p: "map_of fs p = Some f"
    and en: "enable_backup bm" and rd: "src_read_ok env" and wr: "dst_write env = Written"
    and rc: "0 \<le> retention_count bm"
    and ok: "\<forall>q\<in>set (drop (nat (retention_count bm)) newest_first). unlink_ok env q"
  shows "(case create_backup bm env fs p of
            (fs', r) \<Rightarrow>
              r = Some (backup_path_of env p) \<and>
              int (length (backup_files_of env fs' p)) \<le> retention_count bm \<and>
              set (backup_files_of env fs' p) = set (take (nat (retention_count bm)) newest_first) \<and>
              (\<forall>s\<in>set (backup_files_of env fs' p). map_of fs' s = map_of fs1 s) \<and>
              (\<forall>s\<in>set (backup_files_of env fs' p).
                 \<forall>d\<in>set (backup_files_of env fs1 p) - set (backup_files_of env fs' p).
                   mtime_of fs1 d \<le> mtime_of fs1 s))"
proof -
  let ?n = "nat (retention_count bm)"
  let ?del = "drop ?n newest_first"
  let ?fs' = "filter (\<lambda>e. fst e \<notin> set ?del) fs1"
  have d1: "distinct (map fst fs1)" using d by (simp add: fs1_def distinct_update)
  have db: "distinct (backup_files_of env fs1 p)" by (rule backup_files_distinct[OF d1])
  have dn: "distinct newest_first" using db by (simp add: newest_first_def)
  have sn: "set newest_first = set (backup_files_of env fs1 p)" by (simp add: newest_first_def)
  have cl: "cleanup_old_backups bm env fs1 p = (?fs', None)"
    using cleanup_prunes[OF d1 rc, of env p] ok by (simp add: newest_first_def)
  have cb: "create_backup bm env fs p = (?fs', Some (backup_path_of env p))"
    using p en rd wr
    by (simp add: create_backup_def exists_def read_file_def write_file_def cl fs1_def[symmetric])
  have bf: "backup_files_of env ?fs' p = filter (\<lambda>q. q \<notin> set ?del) (backup_files_of env fs1 p)"
    by (rule backup_files_filter)
  have td: "set (take ?n newest_first) \<inter> set ?del = {}"
    using dn by (metis append_take_drop_id distinct_append)
  have tu: "set (take ?n newest_first) \<union> set ?del = set newest_first"
    by (metis append_take_drop_id set_append)
  have st: "set (backup_files_of env ?fs' p) = set (take ?n newest_first)"
    using td tu sn by (auto simp: bf)
  have "distinct (backup_files_of env ?fs' p)" using db by (simp add: bf)
  then have "length (backup_files_of env ?fs' p) = card (set (take ?n newest_first))"
    using st by (metis distinct_card)
  also have "\<dots> = length (take ?n newest_first)"
    using dn by (simp add: distinct_card)
  finally have len: "int (length (backup_files_of env ?fs' p)) \<le> retention_count bm"
    using rc by simp
  have keep: "\<forall>s\<in>set (backup_files_of env ?fs' p). map_of ?fs' s = map_of fs1 s"
    using td by (auto simp: st map_of_filter_keys)
  have srt: "sorted (map (\<lambda>q. - int (mtime_of fs1 q)) newest_first)"
    by (simp add: newest_first_def)
  have ord: "\<forall>s\<in>set (backup_files_of env ?fs' p).
                 \<forall>d\<in>set (backup_files_of env fs1 p) - set (backup_files_of env ?fs' p).
                   mtime_of fs1 d \<le> mtime_of fs1 s"
  proof (intro ballI)
    fix s d
    assume s: "s \<in> set (backup_files_of env ?fs' p)"
      and dd: "d \<in> set (backup_files_of env fs1 p) - set (backup_files_of env ?fs' p)"
    from s have s': "s \<in> set (take ?n newest_first)" by (simp add: st)
    from dd have d': "d \<in> set ?del" using tu sn st by auto
    from take_drop_sorted_keys[OF srt s' d'] show "mtime_of fs1 d \<le> mtime_of fs1 s" by simp
  qed
  from cb len st keep ord show ?thesis by simp
qed


lemmas sample_defs2 = sample_history_def keep_two_def keep_one_def sample_io_locked_def

theorem retention_after_backup_witness:
  "create_backup keep_two sample_io sample_history sample_target =
     ([(sample_target, \<lparr>content = ''[]'', st_mtime = 60\<rparr>),
       (\<lparr>parent = ''proj'', name = ''cache_20240101_000003_backup.json''\<rparr>,
        \<lparr>content = ''[]'', st_mtime = 23\<rparr>),
       (\<lparr>parent = ''proj'', name = ''cache_20240101_120000_backup.json''\<rparr>,
        \<lparr>content = ''[]'', st_mtime = 50\<rparr>)],
      Some \<lparr>parent = ''proj'', name = ''cache_20240101_120000_backup.json''\<rparr>) \<and>
   int (length (backup_files_of sample_io
          (fst (create_backup keep_two sample_io sample_history sample_target)) sample_target))
     \<le> retention_count keep_two"
proof -
  have d: "distinct (map fst sample_history)"
    by (simp add: sample_history_def sample_target_def)
  have p: "map_of sample_history sample_target = Some \<lparr>content = ''[]'', st_mtime = 60\<rparr>"
    by (simp add: sample_history_def)
  have e: "enable_backup keep_two" "src_read_ok sample_io" "dst_write sample_io = Written"
    "0 \<le> retention_count keep_two"
    by (simp_all add: keep_two_def BackupManager_init_def sample_io_def)
  have u: "unlink_ok sample_io q" for q by (simp add: sample_io_def)
  have v: "create_backup keep_two sample_io sample_history sample_target =
     ([(sample_target, \<lparr>content = ''[]'', st_mtime = 60\<rparr>),
       (\<lparr>parent = ''proj'', name = ''cache_20240101_000003_backup.json''\<rparr>,
        \<lparr>content = ''[]'', st_mtime = 23\<rparr>),
       (\<lparr>parent = ''proj'', name = ''cache_20240101_120000_backup.json''\<rparr>,
        \<lparr>content = ''[]'', st_mtime = 50\<rparr>)],
      Some \<lparr>parent = ''proj'', name = ''cache_20240101_120000_backup.json''\<rparr>)"
    by (simp add: sample_defs sample_defs2 path_defs fs_defs op_defs)
  from retention_after_backup[OF d p e(1) e(2) e(3) e(4)] u
  have "int (length (backup_files_of sample_io
          (fst (create_backup keep_two sample_io sample_history sample_target)) sample_target))
     \<le> retention_count keep_two"
    by (simp split: prod.splits)
  with v show ?thesis by simp
qed

text \<open>
  Claim C4, as stated, fails. With two snapshots to keep and three present, one of which
  cannot be unlinked, \<^verbatim>\<open>create_backup\<close> returns the new snapshot and four
  snapshots remain; and with backups disabled it returns without pruning at all.
\<close>

theorem retention_exceeded_counterexample:
  "retention_count keep_two = 2 \<and>
   length (backup_files_of sample_io_locked sample_history sample_target) = 3 \<and>
   length (backup_files_of sample_io_locked
             (fst (create_backup keep_two sample_io_locked sample_history sample_target))
             sample_target) = 4 \<and>
   snd (create_backup keep_two sample_io_locked sample_history sample_target) =
     Some \<lparr>parent = ''proj'', name = ''cache_20240101_120000_backup.json''\<rparr> \<and>
   create_backup (keep_two\<lparr>enable_backup := False\<rparr>) sample_io sample_history sample_target =
     (sample_history, None)"
  by (simp add: sample_defs sample_defs2 path_defs fs_defs op_defs)

text \<open>
  The early returns of \<^verbatim>\<open>create_backup\<close>: with backups disabled, the file
  missing or its read failing, nothing is copied and nothing is pruned.
\<close>

lemma create_backup_returns_early:
  "\<not> enable_backup bm \<or> map_of fs p = None \<or> \<not> src_read_ok env \<Longrightarrow>
     create_backup bm env fs p = (fs, None)"
  by (auto simp: create_backup_def exists_def read_file_def split: option.splits)

text \<open>
  Claim C9, as the code has it. The \<^verbatim>\<open>try\<close> of
  \<^verbatim>\<open>_cleanup_old_backups\<close> encloses the whole loop: the first deletion that
  fails is logged as a warning and ends the pruning pass. The excess snapshots before it,
  in newest-first order, have been deleted; it and all excess snapshots after it remain.
\<close>

theorem pruning_stops_at_failure:
  assumes d: "distinct (map fst fs)" and rc: "0 \<le> retention_count bm"
    and sl: "drop (nat (retention_count bm))
               (sort_key (\<lambda>q. - int (mtime_of fs q)) (backup_files_of env fs p)) = xs @ q # ys"
    and ok: "\<forall>k\<in>set xs. unlink_ok env k" and nok: "\<not> unlink_ok env q"
  shows "(case cleanup_old_backups bm env fs p of
            (fs', logged) \<Rightarrow>
              logged = Some OSError \<and>
              (\<forall>k\<in>set xs. map_of fs' k = None) \<and>
              (\<forall>k\<in>set (q # ys). map_of fs k \<noteq> None \<and> map_of fs' k = map_of fs k))"
proof -
  let ?sorted = "sort_key (\<lambda>q. - int (mtime_of fs q)) (backup_files_of env fs p)"
  have ds: "distinct ?sorted" using backup_files_distinct[OF d, of env p] by simp
  then have "distinct (drop (nat (retention_count bm)) ?sorted)" by simp
  then have dd: "distinct (xs @ q # ys)" by (simp only: sl)
  have "\<forall>k\<in>set (drop (nat (retention_count bm)) ?sorted). map_of fs k \<noteq> None"
    using backup_files_exist[of _ env fs p] by (auto dest: in_set_dropD)
  then have ex: "\<forall>k\<in>set (xs @ q # ys). map_of fs k \<noteq> None" by (simp only: sl)
  have "length ?sorted > nat (retention_count bm)"
    using sl by (metis drop_all leI append_is_Nil_conv list.distinct(1))
  then have big: "\<not> int (length (backup_files_of env fs p)) \<le> retention_count bm"
    using rc by simp
  have sf: "slice_from ?sorted (retention_count bm) = xs @ q # ys"
    using rc sl by (simp add: slice_from_def)
  have "cleanup_old_backups bm env fs p = (filter (\<lambda>e. fst e \<notin> set xs) fs, Some OSError)"
    using big unlink_each_stops[OF dd ex ok nok]
    by (simp add: cleanup_old_backups_def sort_by_mtime_desc_total sf)
  moreover have "\<forall>k\<in>set (q # ys). k \<notin> set xs" using dd by auto
  ultimately show ?thesis using ex by (auto simp: map_of_filter_keys)
qed

theorem pruning_stops_at_failure_witness:
  "snd (cleanup_old_backups (keep_one\<lparr>retention_count := 0\<rparr>) sample_io_locked sample_history
          sample_target) = Some OSError \<and>
   map_of (fst (cleanup_old_backups (keep_one\<lparr>retention_count := 0\<rparr>) sample_io_locked
                  sample_history sample_target))
     \<lparr>parent = ''proj'', name = ''cache_20240101_000003_backup.json''\<rparr> = None \<and>
   map_of (fst (cleanup_old_backups (keep_one\<lparr>retention_count := 0\<rparr>) sample_io_locked
                  sample_history sample_target))
     \<lparr>parent = ''proj'', name = ''cache_20240101_000001_backup.json''\<rparr> =
     Some \<lparr>content = ''[]'', st_mtime = 21\<rparr>"
proof -
  let ?b1 = "\<lparr>parent = ''proj'', name = ''cache_20240101_000001_backup.json''\<rparr>"
  let ?b2 = "\<lparr>parent = ''proj'', name = ''cache_20240101_000002_backup.json''\<rparr>"
  let ?b3 = "\<lparr>parent = ''proj'', name = ''cache_20240101_000003_backup.json''\<rparr>"
  let ?bm = "keep_one\<lparr>retention_count := 0\<rparr>"
  have d: "distinct (map fst sample_history)"
    by (simp add: sample_history_def sample_target_def)
  have rc: "0 \<le> retention_count ?bm" by simp
  have sl: "drop (nat (retention_count ?bm))
               (sort_key (\<lambda>q. - int (mtime_of sample_history q))
                  (backup_files_of sample_io_locked sample_history sample_target))
            = [?b3] @ ?b2 # [?b1]"
    by (simp add: sample_defs sample_defs2 path_defs fs_defs)
  have ok: "\<forall>k\<in>set [?b3]. unlink_ok sample_io_locked k"
    by (simp add: sample_io_locked_def)
  have nok: "\<not> unlink_ok sample_io_locked ?b2"
    by (simp add: sample_io_locked_def)
  have m: "map_of sample_history ?b1 = Some \<lparr>content = ''[]'', st_mtime = 21\<rparr>"
    by (simp add: sample_history_def sample_target_def)
  from pruning_stops_at_failure[OF d rc sl ok nok] m show ?thesis
    by (simp split: prod.splits)
qed

text \<open>
  Claim C9, as stated, fails. With one snapshot to keep and three present, the deletion
  of the second newest fails; the pruning pass ends there and the oldest snapshot stays,
  although its deletion succeeds when it is tried.
\<close>

theorem pruning_aborted_counterexample:
  "cleanup_old_backups keep_one sample_io_locked sample_history sample_target =
     (sample_history, Some OSError) \<and>
   backup_files_of sample_io_locked sample_history sample_target =
     [\<lparr>parent = ''proj'', name = ''cache_20240101_000001_backup.json''\<rparr>,
      \<lparr>parent = ''proj'', name = ''cache_20240101_000002_backup.json''\<rparr>,
      \<lparr>parent = ''proj'', name = ''cache_20240101_000003_backup.json''\<rparr>] \<and>
   retention_count keep_one = 1 \<and>
   unlink_ok sample_io_locked \<lparr>parent = ''proj'', name = ''cache_20240101_000001_backup.json''\<rparr> \<and>
   unlink (unlink_ok sample_io_locked) sample_history
     \<lparr>parent = ''proj'', name = ''cache_20240101_000001_backup.json''\<rparr> =
     Inr [(sample_target, \<lparr>content = ''[]'', st_mtime = 60\<rparr>),
          (\<lparr>parent = ''proj'', name = ''cache_20240101_000002_backup.json''\<rparr>,
           \<lparr>content = ''[]'', st_mtime = 22\<rparr>),
          (\<lparr>parent = ''proj'', name = ''cache_20240101_000003_backup.json''\<rparr>,
           \<lparr>content = ''[]'', st_mtime = 23\<rparr>)]"
  by (simp add: sample_defs sample_defs2 path_defs fs_defs op_defs)

section \<open>Deadlines and locks\<close>






text \<open>
  Claim C7, as the code has it. The lock is a field of the writer instance. Between
  \<^verbatim>\<open>__aenter__\<close> and \<^verbatim>\<open>__aexit__\<close> of an instance a second
  \<^verbatim>\<open>__aenter__\<close> on that instance waits, and it can enter again once
  \<^verbatim>\<open>__aexit__\<close> has released the lock; whether another instance can enter
  depends on that instance's own lock only, whatever its target path is.
  \<^verbatim>\<open>write_atomic\<close> neither takes nor reads the lock: it does the same on an
  instance whether its lock is held or not, and leaves the lock as it is.
\<close>

theorem lock_per_instance:
  assumes "i < length ws" and "\<not> lock_locked (ws ! i)"
  shows "(\<exists>ws1. enter i ws = Some ws1 \<and> lock_locked (ws1 ! i) \<and> enter i ws1 = None \<and>
           (\<forall>j<length ws. j \<noteq> i \<longrightarrow>
              ws1 ! j = ws ! j \<and> (enter j ws1 = None \<longleftrightarrow> lock_locked (ws ! j))) \<and>
           (\<forall>fs ok. \<exists>fs' ws2. leave ok i (fs, ws1) = Some (fs', ws2) \<and>
              \<not> lock_locked (ws2 ! i) \<and> enter i ws2 \<noteq> None)) \<and>
         (\<forall>env validate fs data b.
            write_atomic env validate fs ((ws ! i)\<lparr>lock_locked := b\<rparr>) data =
              (case write_atomic env validate fs (ws ! i) data of
                 (fs', w', ok) \<Rightarrow> (fs', w'\<lparr>lock_locked := b\<rparr>, ok)))"
proof -
  let ?ws1 = "ws[i := (ws ! i)\<lparr>lock_locked := True\<rparr>]"
  have e: "enter i ws = Some ?ws1" using assms by (simp add: enter_def aenter_def)
  have l: "lock_locked (?ws1 ! i)" using assms by simp
  have b: "enter i ?ws1 = None" using assms by (simp add: enter_def aenter_def)
  have o: "\<forall>j<length ws. j \<noteq> i \<longrightarrow>
              ?ws1 ! j = ws ! j \<and> (enter j ?ws1 = None \<longleftrightarrow> lock_locked (ws ! j))"
    by (auto simp: enter_def aenter_def)
  have x: "\<exists>fs' ws2. leave ok i (fs, ?ws1) = Some (fs', ws2) \<and>
              \<not> lock_locked (ws2 ! i) \<and> enter i ws2 \<noteq> None" for fs ok
    using assms
    by (auto simp: leave_def aexit_def enter_def aenter_def Let_def split: prod.splits)
  have wa: "write_atomic env validate fs (w\<lparr>lock_locked := b\<rparr>) data =
              (case write_atomic env validate fs w data of
                 (fs', w', ok) \<Rightarrow> (fs', w'\<lparr>lock_locked := b\<rparr>, ok))"
    for env validate fs data b and w :: AtomicFileWriter
    by (simp add: write_atomic_fails staged_fs_def)
  from e l b o x have "\<exists>ws1. enter i ws = Some ws1 \<and> lock_locked (ws1 ! i) \<and> enter i ws1 = None \<and>
           (\<forall>j<length ws. j \<noteq> i \<longrightarrow>
              ws1 ! j = ws ! j \<and> (enter j ws1 = None \<longleftrightarrow> lock_locked (ws ! j))) \<and>
           (\<forall>fs ok. \<exists>fs' ws2. leave ok i (fs, ws1) = Some (fs', ws2) \<and>
              \<not> lock_locked (ws2 ! i) \<and> enter i ws2 \<noteq> None)"
    by blast
  with wa show ?thesis by blast
qed

theorem lock_per_instance_witness:
  "enter 0 [sample_writer, sample_writer] =
     Some [sample_writer\<lparr>lock_locked := True\<rparr>, sample_writer] \<and>
   enter 0 [sample_writer\<lparr>lock_locked := True\<rparr>, sample_writer] = None \<and>
   enter 1 [sample_writer\<lparr>lock_locked := True\<rparr>, sample_writer] \<noteq> None"
proof -
  have a: "0 < length [sample_writer, sample_writer]" by simp
  have b: "\<not> lock_locked ([sample_writer, sample_writer] ! 0)"
    by (simp add: sample_writer_def AtomicFileWriter_init_def)
  have c: "enter 0 [sample_writer, sample_writer] =
     Some [sample_writer\<lparr>lock_locked := True\<rparr>, sample_writer]"
    by (simp add: enter_def aenter_def sample_writer_def AtomicFileWriter_init_def)
  from lock_per_instance[OF a b] c
  have "enter 0 [sample_writer\<lparr>lock_locked := True\<rparr>, sample_writer] = None \<and>
        ((enter 1 [sample_writer\<lparr>lock_locked := True\<rparr>, sample_writer] = None) \<longleftrightarrow>
           lock_locked ([sample_writer, sample_writer] ! 1))"
    by auto
  with b c show ?thesis by (simp add: sample_writer_def AtomicFileWriter_init_def)
qed

text \<open>
  Claim C7, as stated, fails. Two writer instances for the same target path both pass
  \<^verbatim>\<open>__aenter__\<close>, the second while the first holds its lock, and
  \<^verbatim>\<open>write_atomic\<close> on the second instance stages its file while the sequence
  of the first is in flight.
\<close>

theorem two_writers_in_flight_counterexample:
  "target_path ([sample_writer, sample_writer] ! 0) = sample_target \<and>
   target_path ([sample_writer, sample_writer] ! 1) = sample_target \<and>
   enter 0 [sample_writer, sample_writer] =
     Some [sample_writer\<lparr>lock_locked := True\<rparr>, sample_writer] \<and>
   enter 1 [sample_writer\<lparr>lock_locked := True\<rparr>, sample_writer] =
     Some [sample_writer\<lparr>lock_locked := True\<rparr>, sample_writer\<lparr>lock_locked := True\<rparr>] \<and>
   write_atomic sample_env None sample_fs
     ([sample_writer\<lparr>lock_locked := True\<rparr>, sample_writer\<lparr>lock_locked := True\<rparr>] ! 1) ''[1]'' =
     ([(sample_target, \<lparr>content = ''[]'', st_mtime = 10\<rparr>),
       (\<lparr>parent = ''proj'', name = ''.cache_35_tmp.json''\<rparr>,
        \<lparr>content = ''[1]'', st_mtime = 40\<rparr>)],
      sample_writer\<lparr>temp_path := Some \<lparr>parent = ''proj'', name = ''.cache_35_tmp.json''\<rparr>,
        lock_locked := True\<rparr>,
      False)"
  by (simp add: enter_def sample_defs path_defs fs_defs op_defs)

end
